theory Spec2Isabelle
  imports Main "HOL-Library.Word"
begin

section \<open>Kiwi chatbot page: transcript, in-flight flag and voice routing\<close>

text \<open>
  The development embeds the conversational part of
  \<^verbatim>\<open>src/frontend/src/pages/ChatbotPage.tsx\<close>: the transcript held in the
  \<^verbatim>\<open>messages\<close> state, the deduplicating \<^verbatim>\<open>appendMessage\<close>, the asynchronous
  \<^verbatim>\<open>sendMessage\<close> with its \<^verbatim>\<open>loadingRef\<close> flag, and the
  \<^verbatim>\<open>onTranscription\<close> callback handed to the voice hook.
\<close>

subsection \<open>Strings\<close>

text \<open>
  A JavaScript string is a sequence of 16-bit code units. Literals of the source are
  ASCII and are written through \<open>js\<close>.
\<close>

type_synonym jsstring = "16 word list"

definition js :: "string \<Rightarrow> jsstring" where
  "js s = map (\<lambda>c. of_nat (of_char c)) s"

text \<open>
  \<^verbatim>\<open>String.prototype.trim\<close> removes, at both ends, the code units that ECMAScript
  calls WhiteSpace or LineTerminator: TAB, LF, VT, FF, CR, SP, NBSP, U+1680,
  U+2000..U+200A, U+2028, U+2029, U+202F, U+205F, U+3000 and U+FEFF.
\<close>

definition isWhiteSpace :: "16 word \<Rightarrow> bool" where
  "isWhiteSpace c \<longleftrightarrow>
     c = 0x09 \<or> c = 0x0A \<or> c = 0x0B \<or> c = 0x0C \<or> c = 0x0D \<or> c = 0x20 \<or>
     c = 0xA0 \<or> c = 0x1680 \<or> (0x2000 \<le> c \<and> c \<le> 0x200A) \<or>
     c = 0x2028 \<or> c = 0x2029 \<or> c = 0x202F \<or> c = 0x205F \<or> c = 0x3000 \<or>
     c = 0xFEFF"

definition trim :: "jsstring \<Rightarrow> jsstring" where
  "trim s = rev (dropWhile isWhiteSpace (rev (dropWhile isWhiteSpace s)))"

subsection \<open>Data\<close>

datatype Role = User | Assistant

text \<open>
  Modelled from the spec: the type \<^verbatim>\<open>ChatSource\<close> is imported from
  \<^verbatim>\<open>../types\<close>, which is not among the sources. The page reads
  \<^verbatim>\<open>source.label\<close> and \<^verbatim>\<open>source.url || ''\<close>; the spec's Citation has a
  required label and an optional link target.
\<close>

record ChatSource =
  label :: jsstring
  url :: "jsstring option"

text \<open>
  \<^verbatim>\<open>interface Message { role; content; sources?: ChatSource[] }\<close>; an absent
  \<^verbatim>\<open>sources\<close> property is \<open>None\<close>.
\<close>

record Message =
  role :: Role
  content :: jsstring
  sources :: "ChatSource list option"

text \<open>
  Modelled from the spec: the value \<^verbatim>\<open>chatbotApi.sendMessage\<close> resolves with
  (module \<^verbatim>\<open>../services/api\<close> is not among the sources). The page reads its
  \<^verbatim>\<open>response\<close> and \<^verbatim>\<open>sources\<close> fields.
\<close>

record ChatResponse =
  response :: jsstring
  resp_sources :: "ChatSource list"

subsection \<open>The deduplicating append\<close>

text \<open>
  \<^verbatim>\<open>appendMessage\<close> calls \<^verbatim>\<open>setMessages\<close> with an updater function; the
  updater is modelled here. \<^verbatim>\<open>prev[prev.length - 1]\<close> is \<^verbatim>\<open>undefined\<close> on the
  empty array, which the test \<^verbatim>\<open>last &&\<close> catches.
\<close>

definition lastOf :: "'a list \<Rightarrow> 'a option" where
  "lastOf prev = (if prev = [] then None else Some (last prev))"

definition appendMessage :: "Role \<Rightarrow> jsstring \<Rightarrow> Message list \<Rightarrow> Message list" where
  "appendMessage r c prev =
     (case lastOf prev of
        Some l \<Rightarrow>
          if role l = r \<and> content l = c then prev
          else prev @ [\<lparr>role = r, content = c, sources = None\<rparr>]
      | None \<Rightarrow> prev @ [\<lparr>role = r, content = c, sources = None\<rparr>])"

subsection \<open>Component state\<close>

text \<open>
  The state of one mounted \<^verbatim>\<open>ChatbotPage\<close>: the four \<^verbatim>\<open>useState\<close> cells
  and the \<^verbatim>\<open>loadingRef\<close> cell. Two further fields observe the text collaborator:
  \<open>apiCalls\<close> records every call \<^verbatim>\<open>chatbotApi.sendMessage(message, sessionId)\<close>
  in order, and \<open>inFlight\<close> counts the calls whose promise has not settled yet.

  Every \<^verbatim>\<open>setMessages\<close> of the page passes an updater function, so the
  transcript is the result of the updaters in call order; the model applies each
  updater when it is queued. The synchronous part of a handler runs to completion, and
  the state it has set is taken as committed when it ends.
\<close>

record State =
  messages :: "Message list"
  input :: jsstring
  loading :: bool
  loadingRef :: bool
  sessionId :: jsstring
  apiCalls :: "(jsstring \<times> jsstring) list"
  inFlight :: nat

definition greeting :: jsstring where
  "greeting = js ''Bonjour ! Je suis votre assistant d'assurance Kiwi. Je peux expliquer les termes d'assurance, repondre aux questions sur le processus de sinistre, et vous guider dans votre contrat. Que souhaitez-vous savoir ?''"

text \<open>
  The session identifier is \<^verbatim>\<open>`session-${Date.now()}`\<close>, computed once; the
  model takes it as the parameter \<open>sid\<close>.
\<close>

definition initialState :: "jsstring \<Rightarrow> State" where
  "initialState sid =
     \<lparr>messages = [\<lparr>role = Assistant, content = greeting, sources = None\<rparr>],
      input = [], loading = False, loadingRef = False, sessionId = sid,
      apiCalls = [], inFlight = 0\<rparr>"

subsection \<open>sendMessage\<close>

text \<open>
  \<^verbatim>\<open>sendMessage\<close> is an \<^verbatim>\<open>async\<close> function with one \<^verbatim>\<open>await\<close>. The part
  before the \<^verbatim>\<open>await\<close> (lines 39 to 48) runs synchronously in the caller's tick and is
  the function \<open>sendMessage\<close> below: the test of \<^verbatim>\<open>loadingRef.current\<close> and the
  assignment \<^verbatim>\<open>loadingRef.current = true\<close> are both in it. \<^verbatim>\<open>!trimmed\<close> holds
  exactly for the empty string.
\<close>

definition sendMessage :: "jsstring \<Rightarrow> State \<Rightarrow> State" where
  "sendMessage messageText st =
     (let trimmed = trim messageText in
      if trimmed = [] \<or> loadingRef st then st
      else st\<lparr>input := [],
              messages := appendMessage User trimmed (messages st),
              loadingRef := True,
              loading := True,
              apiCalls := apiCalls st @ [(trimmed, sessionId st)],
              inFlight := Suc (inFlight st)\<rparr>)"

text \<open>
  The part after the \<^verbatim>\<open>await\<close> runs when the promise settles: with a response
  (\<open>Inr\<close>), or with a thrown value (\<open>Inl\<close>), which is what the \<^verbatim>\<open>await\<close>
  raises inside the \<^verbatim>\<open>try\<close>. Each block returns the state and the exception it
  leaves pending, if any.
\<close>

datatype JsError = JsError jsstring

definition failureText :: jsstring where
  "failureText = js ''Desole, une erreur est survenue. Veuillez reessayer.''"

definition tryBlock :: "JsError + ChatResponse \<Rightarrow> State \<Rightarrow> State \<times> JsError option" where
  "tryBlock settled st =
     (case settled of
        Inl err \<Rightarrow> (st, Some err)
      | Inr r \<Rightarrow>
          (st\<lparr>messages := messages st @
                 [\<lparr>role = Assistant, content = response r,
                   sources = Some (resp_sources r)\<rparr>]\<rparr>, None))"

definition catchBlock :: "JsError \<Rightarrow> State \<Rightarrow> State \<times> JsError option" where
  "catchBlock err st =
     (st\<lparr>messages := appendMessage Assistant failureText (messages st)\<rparr>, None)"

definition finallyBlock :: "State \<Rightarrow> State" where
  "finallyBlock st = st\<lparr>loadingRef := False, loading := False\<rparr>"

definition sendMessage_resume :: "JsError + ChatResponse \<Rightarrow> State \<Rightarrow> State \<times> JsError option" where
  "sendMessage_resume settled st =
     (let st0 = st\<lparr>inFlight := inFlight st - 1\<rparr>;
          (st1, pending1) = tryBlock settled st0;
          (st2, pending2) = (case pending1 of
                               Some err \<Rightarrow> catchBlock err st1
                             | None \<Rightarrow> (st1, None))
      in (finallyBlock st2, pending2))"

subsection \<open>Voice routing and the other handlers\<close>

text \<open>
  The callback given to \<^verbatim>\<open>useVoiceChat\<close>. \<^verbatim>\<open>void sendMessage(text)\<close> starts
  the dispatch and does not wait for it.
\<close>

definition onTranscription :: "Role \<Rightarrow> jsstring \<Rightarrow> State \<Rightarrow> State" where
  "onTranscription r text st =
     (if r = User then sendMessage text st
      else st\<lparr>messages := appendMessage r text (messages st)\<rparr>)"

definition handleSend :: "State \<Rightarrow> State" where
  "handleSend st = sendMessage (input st) st"

text \<open>The effect \<^verbatim>\<open>useEffect(() => { loadingRef.current = loading }, [loading])\<close>.\<close>

definition loadingEffect :: "State \<Rightarrow> State" where
  "loadingEffect st = st\<lparr>loadingRef := loading st\<rparr>"

subsection \<open>Interleavings\<close>

text \<open>
  What can happen to the page, one synchronous step each: the input box changes, the
  send button or the Enter key calls \<^verbatim>\<open>handleSend\<close>, the voice hook delivers a
  finalized transcription, the awaited collaborator call settles, or the loading effect
  runs. A settlement needs a call in flight; \<open>fire\<close> is \<open>None\<close> for an event that
  cannot occur.
\<close>

datatype Event =
    SetInput jsstring
  | HandleSend
  | Transcription Role jsstring
  | Settle "JsError + ChatResponse"
  | LoadingEffect

fun fire :: "Event \<Rightarrow> State \<Rightarrow> State option" where
  "fire (SetInput s) st = Some (st\<lparr>input := s\<rparr>)"
| "fire HandleSend st = Some (handleSend st)"
| "fire (Transcription r text) st = Some (onTranscription r text st)"
| "fire (Settle x) st =
     (if inFlight st = 0 then None else Some (fst (sendMessage_resume x st)))"
| "fire LoadingEffect st = Some (loadingEffect st)"

fun run :: "Event list \<Rightarrow> State \<Rightarrow> State option" where
  "run [] st = Some st"
| "run (e # es) st = (case fire e st of None \<Rightarrow> None | Some st' \<Rightarrow> run es st')"

subsection \<open>Turns written by the page\<close>

definition userTurn :: "jsstring \<Rightarrow> Message" where
  "userTurn t = \<lparr>role = User, content = t, sources = None\<rparr>"

definition replyTurn :: "ChatResponse \<Rightarrow> Message" where
  "replyTurn r = \<lparr>role = Assistant, content = response r, sources = Some (resp_sources r)\<rparr>"



subsection \<open>Classes of events\<close>




subsection \<open>Invariants of the page\<close>

text \<open>
  The state cell \<^verbatim>\<open>loading\<close> and the cell \<^verbatim>\<open>loadingRef\<close> agree between steps,
  the flag is set exactly while one call is in flight, and the transcript ends with an
  assistant turn whenever the flag is clear.
\<close>

definition pageInv :: "State \<Rightarrow> bool" where
  "pageInv st \<longleftrightarrow>
     loading st = loadingRef st \<and>
     inFlight st = (if loadingRef st then 1 else 0) \<and>
     messages st \<noteq> [] \<and>
     (\<not> loadingRef st \<longrightarrow> role (last (messages st)) = Assistant)"

text \<open>
  Every message handed to the collaborator is non-empty and is its own trim, and every
  call carries the session identifier of the page.
\<close>

definition callsInv :: "jsstring \<Rightarrow> State \<Rightarrow> bool" where
  "callsInv sid st \<longleftrightarrow>
     sessionId st = sid \<and>
     (\<forall>c \<in> set (apiCalls st). fst c \<noteq> [] \<and> trim (fst c) = fst c \<and> snd c = sid)"

subsection \<open>Voice session controller\<close>

text \<open>
  Modelled from the spec: the hook \<^verbatim>\<open>useVoiceChat\<close> (module
  \<^verbatim>\<open>../hooks/useVoiceChat\<close>) is not among the sources; the page only reads its
  \<^verbatim>\<open>status\<close> and \<^verbatim>\<open>error\<close> and calls its \<^verbatim>\<open>start\<close> and \<^verbatim>\<open>stop\<close>.
  The controller below follows section 4.3 of the spec: \<open>Start\<close> is valid only from
  idle or error and moves to connecting; the collaborator's confirmation moves connecting
  to ready; a channel failure while connecting or ready moves to error with the supplied
  message; \<open>Stop\<close> is valid from connecting or ready, tears the channel down (the call
  \<open>TransportStop\<close> to the voice transport) and moves to idle. Every other event
  leaves the state as it is.
\<close>

datatype VoiceStatus = Idle | Connecting | Ready | Error

datatype TransportCall = TransportStart jsstring | TransportStop

record VoiceState =
  voiceStatus :: VoiceStatus
  voiceError :: "jsstring option"
  transportCalls :: "TransportCall list"

datatype VoiceEvent = Start | Stop | ChannelReady | ChannelError jsstring

definition initialVoice :: VoiceState where
  "initialVoice = \<lparr>voiceStatus = Idle, voiceError = None, transportCalls = []\<rparr>"

fun voiceStep :: "jsstring \<Rightarrow> VoiceEvent \<Rightarrow> VoiceState \<Rightarrow> VoiceState" where
  "voiceStep sid Start s =
     (if voiceStatus s = Idle \<or> voiceStatus s = Error
      then s\<lparr>voiceStatus := Connecting,
              transportCalls := transportCalls s @ [TransportStart sid]\<rparr>
      else s)"
| "voiceStep sid Stop s =
     (if voiceStatus s = Connecting \<or> voiceStatus s = Ready
      then s\<lparr>voiceStatus := Idle, transportCalls := transportCalls s @ [TransportStop]\<rparr>
      else s)"
| "voiceStep sid ChannelReady s =
     (if voiceStatus s = Connecting then s\<lparr>voiceStatus := Ready\<rparr> else s)"
| "voiceStep sid (ChannelError m) s =
     (if voiceStatus s = Connecting \<or> voiceStatus s = Ready
      then s\<lparr>voiceStatus := Error, voiceError := Some m\<rparr>
      else s)"

text \<open>The edges that section 8 of the spec lists for the voice status.\<close>

definition listedEdges :: "(VoiceStatus \<times> VoiceStatus) list" where
  "listedEdges =
     [(Idle, Connecting), (Connecting, Ready), (Connecting, Error),
      (Ready, Idle), (Ready, Error), (Error, Connecting)]"

subsection \<open>Concrete runs\<close>

text \<open>
  A page after the voice hook delivered the user utterance \<open>'' Bonjour ''\<close>
  (\<open>exBusy\<close>, the call is in flight), the same page after two assistant utterances
  arrived meanwhile, the second one reading like the failure text (\<open>exVoiced\<close>), and
  the page after the call of \<open>exBusy\<close> resolved with \<open>exReply\<close> (\<open>exDone\<close>).
\<close>

definition sid0 :: jsstring where
  "sid0 = js ''session-1''"

definition exReply :: ChatResponse where
  "exReply = \<lparr>response = js ''A deductible is...'',
      resp_sources = [\<lparr>label = js ''Policy 4'', url = Some (js ''https://x/4'')\<rparr>]\<rparr>"

definition exBusy :: State where
  "exBusy = sendMessage (js '' Bonjour '') (initialState sid0)"



section \<open>Properties\<close>

subsection \<open>Trimming\<close>

lemma last_dropWhile_nonempty:
  "dropWhile P xs \<noteq> [] \<Longrightarrow> last (dropWhile P xs) = last xs"
  by (metis last_appendR takeWhile_dropWhile_id)

lemma dropWhile_rev_dropWhile_fixed:
  "dropWhile P (rev (dropWhile P (rev (dropWhile P s)))) = rev (dropWhile P (rev (dropWhile P s)))"
proof (cases "dropWhile P (rev (dropWhile P s)) = []")
  case True
  show ?thesis unfolding True by simp
next
  case False
  have ne: "dropWhile P s \<noteq> []"
  proof
    assume "dropWhile P s = []"
    then have "dropWhile P (rev (dropWhile P s)) = []" by (simp only: rev.simps dropWhile.simps)
    with False show False by contradiction
  qed
  have "last (dropWhile P (rev (dropWhile P s))) = last (rev (dropWhile P s))"
    using False by (rule last_dropWhile_nonempty)
  also have "\<dots> = hd (dropWhile P s)" using ne by (simp add: last_rev)
  finally have "\<not> P (last (dropWhile P (rev (dropWhile P s))))"
    using ne by (simp add: hd_dropWhile)
  then show ?thesis using False
    by (simp add: dropWhile_eq_self_iff hd_rev)
qed

lemma trim_idem: "trim (trim s) = trim s"
  unfolding trim_def by (simp add: dropWhile_rev_dropWhile_fixed)



subsection \<open>The deduplicating append\<close>

lemma lastOf_snoc: "lastOf (xs @ [x]) = Some x"
  by (simp add: lastOf_def)

lemma appendMessage_unchanged_iff:
  "appendMessage r c prev = prev \<longleftrightarrow>
     (\<exists>l. lastOf prev = Some l \<and> role l = r \<and> content l = c)"
  by (auto simp: appendMessage_def split: option.splits)

lemma appendMessage_cases:
  "appendMessage r c prev = prev \<or>
   appendMessage r c prev = prev @ [\<lparr>role = r, content = c, sources = None\<rparr>]"
  by (auto simp: appendMessage_def split: option.splits)

lemma appendMessage_not_Nil: "appendMessage r c prev \<noteq> []"
  by (auto simp: appendMessage_def lastOf_def split: option.splits if_splits)

lemma appendMessage_last:
  "role (last (appendMessage r c prev)) = r \<and> content (last (appendMessage r c prev)) = c"
  by (auto simp: appendMessage_def lastOf_def split: option.splits if_splits)

lemma appendMessage_after_other_role:
  "prev \<noteq> [] \<Longrightarrow> role (last prev) \<noteq> r \<Longrightarrow>
   appendMessage r c prev = prev @ [\<lparr>role = r, content = c, sources = None\<rparr>]"
  by (auto simp: appendMessage_def lastOf_def)


subsection \<open>The two halves of sendMessage\<close>

lemma sendMessage_rejected:
  "trim t = [] \<or> loadingRef st \<Longrightarrow> sendMessage t st = st"
  by (auto simp: sendMessage_def)

lemma sendMessage_accepted:
  "trim t \<noteq> [] \<Longrightarrow> \<not> loadingRef st \<Longrightarrow>
   sendMessage t st =
     st\<lparr>input := [],
        messages := appendMessage User (trim t) (messages st),
        loadingRef := True,
        loading := True,
        apiCalls := apiCalls st @ [(trim t, sessionId st)],
        inFlight := Suc (inFlight st)\<rparr>"
  by (simp add: sendMessage_def Let_def)

lemma resume_fulfilled:
  "sendMessage_resume (Inr r) st =
     (st\<lparr>inFlight := inFlight st - 1,
         messages := messages st @
           [\<lparr>role = Assistant, content = response r, sources = Some (resp_sources r)\<rparr>],
         loadingRef := False, loading := False\<rparr>, None)"
  by (simp add: sendMessage_resume_def tryBlock_def finallyBlock_def)

lemma resume_rejected:
  "sendMessage_resume (Inl err) st =
     (st\<lparr>inFlight := inFlight st - 1,
         messages := appendMessage Assistant failureText (messages st),
         loadingRef := False, loading := False\<rparr>, None)"
  by (simp add: sendMessage_resume_def tryBlock_def catchBlock_def finallyBlock_def)

subsection \<open>The invariants hold along every run\<close>

lemma initial_free: "\<not> loadingRef (initialState sid)"
  by (simp add: initialState_def)

lemma pageInv_initial: "pageInv (initialState sid)"
  by (simp add: pageInv_def initialState_def)

lemma pageInv_sendMessage: "pageInv st \<Longrightarrow> pageInv (sendMessage t st)"
proof (cases "trim t = [] \<or> loadingRef st")
  case True
  assume "pageInv st"
  with True show ?thesis by (simp add: sendMessage_rejected)
next
  case False
  assume "pageInv st"
  with False show ?thesis
    by (simp add: sendMessage_accepted pageInv_def appendMessage_not_Nil)
qed

lemma pageInv_resume:
  "pageInv st \<Longrightarrow> inFlight st \<noteq> 0 \<Longrightarrow> pageInv (fst (sendMessage_resume x st))"
  by (cases x) (auto simp: resume_fulfilled resume_rejected pageInv_def
      appendMessage_not_Nil appendMessage_last split: if_splits)

lemma pageInv_onTranscription: "pageInv st \<Longrightarrow> pageInv (onTranscription r u st)"
proof (cases r)
  case User
  assume "pageInv st"
  with User show ?thesis by (simp add: onTranscription_def pageInv_sendMessage)
next
  case Assistant
  assume "pageInv st"
  with Assistant show ?thesis
    by (simp add: onTranscription_def pageInv_def appendMessage_not_Nil appendMessage_last)
qed

lemma pageInv_fire: "pageInv st \<Longrightarrow> fire e st = Some st' \<Longrightarrow> pageInv st'"
proof (cases e)
  case (SetInput s)
  assume "pageInv st" "fire e st = Some st'"
  with SetInput show ?thesis by (auto simp: pageInv_def)
next
  case HandleSend
  assume "pageInv st" "fire e st = Some st'"
  with HandleSend show ?thesis by (auto simp: handleSend_def pageInv_sendMessage)
next
  case (Transcription r u)
  assume "pageInv st" "fire e st = Some st'"
  with Transcription show ?thesis by (auto simp: pageInv_onTranscription)
next
  case (Settle x)
  assume "pageInv st" "fire e st = Some st'"
  with Settle show ?thesis by (auto simp: pageInv_resume split: if_splits)
next
  case LoadingEffect
  assume "pageInv st" "fire e st = Some st'"
  with LoadingEffect show ?thesis by (auto simp: loadingEffect_def pageInv_def)
qed

lemma pageInv_run: "pageInv st \<Longrightarrow> run es st = Some st' \<Longrightarrow> pageInv st'"
proof (induction es arbitrary: st)
  case Nil
  then show ?case by simp
next
  case (Cons e es)
  then show ?case by (auto split: option.splits dest: pageInv_fire)
qed

lemma callsInv_initial: "callsInv sid (initialState sid)"
  by (simp add: callsInv_def initialState_def)

lemma callsInv_sendMessage: "callsInv sid st \<Longrightarrow> callsInv sid (sendMessage t st)"
proof (cases "trim t = [] \<or> loadingRef st")
  case True
  assume "callsInv sid st"
  with True show ?thesis by (simp add: sendMessage_rejected)
next
  case False
  assume "callsInv sid st"
  with False show ?thesis
    by (simp add: sendMessage_accepted callsInv_def trim_idem)
qed

lemma callsInv_onTranscription: "callsInv sid st \<Longrightarrow> callsInv sid (onTranscription r u st)"
proof (cases r)
  case User
  assume "callsInv sid st"
  with User show ?thesis by (simp add: onTranscription_def callsInv_sendMessage)
next
  case Assistant
  assume "callsInv sid st"
  with Assistant show ?thesis by (simp add: onTranscription_def callsInv_def)
qed

lemma callsInv_fire: "callsInv sid st \<Longrightarrow> fire e st = Some st' \<Longrightarrow> callsInv sid st'"
proof (cases e)
  case (SetInput s)
  assume "callsInv sid st" "fire e st = Some st'"
  with SetInput show ?thesis by (auto simp: callsInv_def)
next
  case HandleSend
  assume "callsInv sid st" "fire e st = Some st'"
  with HandleSend show ?thesis by (auto simp: handleSend_def callsInv_sendMessage)
next
  case (Transcription r u)
  assume "callsInv sid st" "fire e st = Some st'"
  with Transcription show ?thesis by (auto simp: callsInv_onTranscription)
next
  case (Settle x)
  assume "callsInv sid st" "fire e st = Some st'"
  with Settle show ?thesis
    by (cases x) (auto simp: resume_fulfilled resume_rejected callsInv_def split: if_splits)
next
  case LoadingEffect
  assume "callsInv sid st" "fire e st = Some st'"
  with LoadingEffect show ?thesis by (auto simp: loadingEffect_def callsInv_def)
qed

lemma callsInv_run: "callsInv sid st \<Longrightarrow> run es st = Some st' \<Longrightarrow> callsInv sid st'"
proof (induction es arbitrary: st)
  case Nil
  then show ?case by simp
next
  case (Cons e es)
  then show ?case by (auto split: option.splits dest: callsInv_fire)
qed

subsection \<open>While a call is in flight\<close>




text \<open>An accepted dispatch, from any state a run can reach.\<close>

lemma accepted_from_reachable:
  assumes "run es (initialState sid) = Some st" "\<not> loadingRef st" "trim rawText \<noteq> []"
  shows "messages (sendMessage rawText st) = messages st @ [userTurn (trim rawText)]"
    and "apiCalls (sendMessage rawText st) = apiCalls st @ [(trim rawText, sid)]"
    and "loadingRef (sendMessage rawText st)"
    and "pageInv (sendMessage rawText st)"
    and "inFlight (sendMessage rawText st) = 1"
proof -
  have inv: "pageInv st" using pageInv_initial assms(1) by (rule pageInv_run)
  have cinv: "callsInv sid st" using callsInv_initial assms(1) by (rule callsInv_run)
  have "messages st \<noteq> []" and "role (last (messages st)) \<noteq> User"
    using inv assms(2) by (simp_all add: pageInv_def)
  then have "appendMessage User (trim rawText) (messages st) =
      messages st @ [userTurn (trim rawText)]"
    unfolding userTurn_def by (rule appendMessage_after_other_role)
  then show "messages (sendMessage rawText st) = messages st @ [userTurn (trim rawText)]"
    using assms(2,3) by (simp add: sendMessage_accepted)
  show "apiCalls (sendMessage rawText st) = apiCalls st @ [(trim rawText, sid)]"
    using assms(2,3) cinv by (simp add: sendMessage_accepted callsInv_def)
  show "loadingRef (sendMessage rawText st)"
    using assms(2,3) by (simp add: sendMessage_accepted)
  show "pageInv (sendMessage rawText st)" using inv by (rule pageInv_sendMessage)
  show "inFlight (sendMessage rawText st) = 1"
    using assms(2,3) inv by (simp add: sendMessage_accepted pageInv_def)
qed

subsection \<open>Facts about the concrete runs\<close>

lemma trim_Bonjour: "trim (js '' Bonjour '') = js ''Bonjour''"
  by (simp add: trim_def js_def isWhiteSpace_def)

lemma js_Bonjour_not_Nil: "js ''Bonjour'' \<noteq> []"
  by (simp add: js_def)

lemma trim_Bonjour_not_Nil: "trim (js '' Bonjour '') \<noteq> []"
  by (simp add: trim_Bonjour js_Bonjour_not_Nil)













section \<open>The claims\<close>

subsection \<open>C1: at most one dispatch in flight\<close>




subsection \<open>C2: a successful dispatch\<close>




subsection \<open>C3: a failed dispatch\<close>




subsection \<open>C4: sends while a call is in flight\<close>



subsection \<open>C5: the deduplicating append\<close>

text \<open>
  Claim C5. \<open>appendMessage\<close> leaves the transcript unchanged exactly when the
  transcript is not empty and its last turn has the same role and the same content;
  otherwise it appends one turn without sources. Appending the same turn twice is
  appending it once. Only the last turn is compared: appending A, then a different B,
  then A again appends B and the second A, three turns from the empty transcript.
\<close>

theorem dedup_compares_last_turn_only:
  "(appendMessage r c prev = prev \<longleftrightarrow>
      prev \<noteq> [] \<and> role (last prev) = r \<and> content (last prev) = c) \<and>
   (appendMessage r c prev = prev \<or>
      appendMessage r c prev = prev @ [\<lparr>role = r, content = c, sources = None\<rparr>]) \<and>
   appendMessage r c (appendMessage r c prev) = appendMessage r c prev \<and>
   (rA \<noteq> rB \<or> cA \<noteq> cB \<longrightarrow>
      appendMessage rA cA (appendMessage rB cB (appendMessage rA cA prev)) =
        appendMessage rA cA prev @
          [\<lparr>role = rB, content = cB, sources = None\<rparr>,
           \<lparr>role = rA, content = cA, sources = None\<rparr>] \<and>
      length (appendMessage rA cA (appendMessage rB cB (appendMessage rA cA []))) = 3)"
proof -
  have a: "appendMessage r c prev = prev \<longleftrightarrow>
      prev \<noteq> [] \<and> role (last prev) = r \<and> content (last prev) = c"
    by (auto simp: appendMessage_unchanged_iff lastOf_def)
  have b: "appendMessage r c (appendMessage r c prev) = appendMessage r c prev"
    by (simp add: appendMessage_unchanged_iff lastOf_def appendMessage_not_Nil appendMessage_last)
  have c: "appendMessage rA cA (appendMessage rB cB (appendMessage rA cA ms)) =
        appendMessage rA cA ms @
          [\<lparr>role = rB, content = cB, sources = None\<rparr>,
           \<lparr>role = rA, content = cA, sources = None\<rparr>]"
    if "rA \<noteq> rB \<or> cA \<noteq> cB" for ms
  proof -
    have "appendMessage rB cB (appendMessage rA cA ms) =
        appendMessage rA cA ms @ [\<lparr>role = rB, content = cB, sources = None\<rparr>]"
      using that appendMessage_last [of rA cA ms] appendMessage_not_Nil [of rA cA ms]
        appendMessage_cases [of rB cB "appendMessage rA cA ms"]
      by (auto simp: appendMessage_unchanged_iff lastOf_def)
    moreover have "appendMessage rA cA
        (appendMessage rA cA ms @ [\<lparr>role = rB, content = cB, sources = None\<rparr>]) =
        appendMessage rA cA ms @ [\<lparr>role = rB, content = cB, sources = None\<rparr>,
          \<lparr>role = rA, content = cA, sources = None\<rparr>]"
      using that by (auto simp: appendMessage_def lastOf_def)
    ultimately show ?thesis by simp
  qed
  have d: "length (appendMessage rA cA (appendMessage rB cB (appendMessage rA cA []))) = 3"
    if "rA \<noteq> rB \<or> cA \<noteq> cB"
    using c [OF that, of "[]"] by (simp add: appendMessage_def lastOf_def)
  show ?thesis using a b c d appendMessage_cases by blast
qed

theorem dedup_compares_last_turn_only_witness:
  "User \<noteq> Assistant \<and>
   appendMessage Assistant (js ''B'') [\<lparr>role = Assistant, content = js ''B'', sources = None\<rparr>] =
     [\<lparr>role = Assistant, content = js ''B'', sources = None\<rparr>] \<and>
   length (appendMessage User (js ''A'')
     (appendMessage Assistant (js ''B'') (appendMessage User (js ''A'') []))) = 3"
  using dedup_compares_last_turn_only
    [of Assistant "js ''B''" "[\<lparr>role = Assistant, content = js ''B'', sources = None\<rparr>]"
      User Assistant "js ''A''" "js ''B''"]
  by simp

subsection \<open>C6: routing of voice transcriptions\<close>



subsection \<open>C7: blank input\<close>

text \<open>
  Claim C7. A send whose text trims to the empty string returns the state unchanged: no
  turn, no call, the flag as before. From the greeting alone, the send of two spaces
  leaves a transcript of length one.
\<close>

theorem blank_input_is_noop:
  "(trim t = [] \<longrightarrow>
      sendMessage t st = st \<and> onTranscription User t st = st \<and>
      handleSend (st\<lparr>input := t\<rparr>) = st\<lparr>input := t\<rparr> \<and>
      messages (sendMessage t st) = messages st \<and>
      apiCalls (sendMessage t st) = apiCalls st \<and>
      loadingRef (sendMessage t st) = loadingRef st) \<and>
   trim (js ''  '') = [] \<and>
   sendMessage (js ''  '') (initialState sid) = initialState sid \<and>
   length (messages (initialState sid)) = 1 \<and>
   length (messages (sendMessage (js ''  '') (initialState sid))) = 1"
proof -
  have b: "trim (js ''  '') = []"
    by (simp add: trim_def js_def isWhiteSpace_def)
  then have "sendMessage (js ''  '') (initialState sid) = initialState sid"
    by (simp add: sendMessage_rejected)
  then show ?thesis using b
    by (simp add: sendMessage_rejected onTranscription_def handleSend_def initialState_def)
qed

theorem blank_input_is_noop_witness:
  "trim [0x09, 0x20, 0xA0, 0x0A] = [] \<and>
   sendMessage [0x09, 0x20, 0xA0, 0x0A] exBusy = exBusy \<and>
   sendMessage [0x09, 0x20, 0xA0, 0x0A] (initialState sid0) = initialState sid0 \<and>
   length (messages (sendMessage (js ''  '') (initialState sid0))) = 1"
proof -
  have b: "trim [0x09, 0x20, 0xA0, 0x0A] = []"
    by (simp add: trim_def isWhiteSpace_def)
  show ?thesis
    using blank_input_is_noop [of "[0x09, 0x20, 0xA0, 0x0A]" exBusy sid0]
      blank_input_is_noop [of "[0x09, 0x20, 0xA0, 0x0A]" "initialState sid0" sid0] b
    by simp
qed

subsection \<open>C8: the voice status\<close>

text \<open>
  Claim C8, as amended. The voice status starts idle and every step of the controller
  either leaves the state as it is or follows one of the six listed edges or the edge
  from connecting to idle, which \<open>Stop\<close> takes. \<open>Start\<close> does nothing from
  connecting or ready; \<open>Stop\<close> does nothing from idle or error, and from connecting
  or ready it tears the channel down and moves to idle.
\<close>

theorem voice_status_edges:
  "voiceStatus initialVoice = Idle \<and>
   (voiceStep sid e s = s \<or>
    (voiceStatus s, voiceStatus (voiceStep sid e s)) \<in> set ((Connecting, Idle) # listedEdges)) \<and>
   (voiceStatus s = Connecting \<or> voiceStatus s = Ready \<longrightarrow>
      voiceStep sid Start s = s \<and>
      voiceStatus (voiceStep sid Stop s) = Idle \<and>
      transportCalls (voiceStep sid Stop s) = transportCalls s @ [TransportStop]) \<and>
   (voiceStatus s = Idle \<or> voiceStatus s = Error \<longrightarrow>
      voiceStep sid Stop s = s \<and>
      voiceStatus (voiceStep sid Start s) = Connecting)"
proof -
  have "voiceStep sid e s = s \<or>
    (voiceStatus s, voiceStatus (voiceStep sid e s)) \<in> set ((Connecting, Idle) # listedEdges)"
    by (cases e; cases "voiceStatus s") (simp_all add: listedEdges_def)
  then show ?thesis by (auto simp: initialVoice_def)
qed

theorem voice_status_edges_witness:
  "voiceStatus (voiceStep sid0 Start initialVoice) = Connecting \<and>
   voiceStep sid0 Start (voiceStep sid0 Start initialVoice) = voiceStep sid0 Start initialVoice \<and>
   voiceStatus (voiceStep sid0 Stop (voiceStep sid0 Start initialVoice)) = Idle \<and>
   voiceStatus initialVoice = Idle \<and>
   voiceStep sid0 Stop initialVoice = initialVoice"
  using voice_status_edges [of sid0 Start "voiceStep sid0 Start initialVoice"]
    voice_status_edges [of sid0 Start initialVoice]
  by (simp add: initialVoice_def)

text \<open>
  Against C8 as stated (only the six listed edges): \<open>Stop\<close> while connecting moves to
  idle, and that edge is not listed.
\<close>

theorem stop_while_connecting_leaves_listed_edges:
  "voiceStatus (voiceStep sid0 Start initialVoice) = Connecting \<and>
   voiceStatus (voiceStep sid0 Stop (voiceStep sid0 Start initialVoice)) = Idle \<and>
   voiceStep sid0 Stop (voiceStep sid0 Start initialVoice) \<noteq> voiceStep sid0 Start initialVoice \<and>
   (Connecting, Idle) \<notin> set listedEdges"
  by (simp add: initialVoice_def listedEdges_def)

subsection \<open>C9: assistant utterances do not wait for the flag\<close>

text \<open>
  Claim C9. The voice callback appends an assistant utterance through the deduplicating
  append whatever the value of \<^verbatim>\<open>loadingRef\<close>. So after an accepted dispatch from
  the fresh page, an assistant utterance delivered before the call resolves lands
  between the user turn and the reply: the two turns of the dispatch are not adjacent.
\<close>

theorem voice_reply_appended_while_busy:
  assumes "trim q \<noteq> []"
  shows "messages (onTranscription Assistant v st) = appendMessage Assistant v (messages st) \<and>
         loadingRef (onTranscription Assistant v st) = loadingRef st \<and>
         loadingRef (sendMessage q (initialState sid)) \<and>
         messages (onTranscription Assistant v (sendMessage q (initialState sid))) =
           messages (initialState sid) @
             [userTurn (trim q), \<lparr>role = Assistant, content = v, sources = None\<rparr>] \<and>
         run [Transcription User q, Transcription Assistant v, Settle (Inr r)] (initialState sid) =
           Some (fst (sendMessage_resume (Inr r)
             (onTranscription Assistant v (sendMessage q (initialState sid))))) \<and>
         messages (fst (sendMessage_resume (Inr r)
             (onTranscription Assistant v (sendMessage q (initialState sid))))) =
           messages (initialState sid) @
             [userTurn (trim q), \<lparr>role = Assistant, content = v, sources = None\<rparr>, replyTurn r]"
proof -
  have r0: "run [] (initialState sid) = Some (initialState sid)" by simp
  note acc = accepted_from_reachable [OF r0 initial_free assms]
  have m1: "messages (onTranscription Assistant v (sendMessage q (initialState sid))) =
      messages (initialState sid) @
        [userTurn (trim q), \<lparr>role = Assistant, content = v, sources = None\<rparr>]"
    by (simp add: onTranscription_def acc(1) appendMessage_def lastOf_def userTurn_def)
  have fl: "inFlight (onTranscription Assistant v (sendMessage q (initialState sid))) \<noteq> 0"
    using acc(5) by (simp add: onTranscription_def)
  have rn: "run [Transcription User q, Transcription Assistant v, Settle (Inr r)]
      (initialState sid) =
      Some (fst (sendMessage_resume (Inr r)
        (onTranscription Assistant v (sendMessage q (initialState sid)))))"
    using fl by (simp add: onTranscription_def)
  have m2: "messages (fst (sendMessage_resume (Inr r)
        (onTranscription Assistant v (sendMessage q (initialState sid))))) =
      messages (initialState sid) @
        [userTurn (trim q), \<lparr>role = Assistant, content = v, sources = None\<rparr>, replyTurn r]"
    using m1 by (simp add: resume_fulfilled replyTurn_def)
  show ?thesis using acc(3) m1 rn m2 by (simp add: onTranscription_def)
qed

theorem voice_reply_appended_while_busy_witness:
  "trim (js '' Bonjour '') \<noteq> [] \<and>
   loadingRef exBusy \<and>
   messages (onTranscription Assistant (js ''Un instant'') exBusy) =
     messages (initialState sid0) @
       [userTurn (js ''Bonjour''),
        \<lparr>role = Assistant, content = js ''Un instant'', sources = None\<rparr>] \<and>
   run [Transcription User (js '' Bonjour ''), Transcription Assistant (js ''Un instant''),
        Settle (Inr exReply)] (initialState sid0) =
     Some (fst (sendMessage_resume (Inr exReply)
       (onTranscription Assistant (js ''Un instant'') exBusy))) \<and>
   messages (fst (sendMessage_resume (Inr exReply)
       (onTranscription Assistant (js ''Un instant'') exBusy))) =
     messages (initialState sid0) @
       [userTurn (js ''Bonjour''),
        \<lparr>role = Assistant, content = js ''Un instant'', sources = None\<rparr>,
        replyTurn exReply]"
  using voice_reply_appended_while_busy
    [OF trim_Bonjour_not_Nil, of "js ''Un instant''" exBusy sid0 exReply,
      unfolded exBusy_def [symmetric] trim_Bonjour]
    trim_Bonjour_not_Nil
  by blast

subsection \<open>C10: the trimmed text is what is stored and sent\<close>



end
